theory Spec2Isabelle
  imports Complex_Main
begin

section \<open>Python values\<close>

text \<open>
  The two scripts \<^verbatim>\<open>fetch_fangraphs_fa_pool.py\<close> (the JSON-API variant under
  \<^verbatim>\<open>CBL_Free_Agent_Pool_native_tables_v3/scripts\<close> and the HTML variant under
  \<^verbatim>\<open>scripts\<close>) handle decoded JSON values, exceptions and strings. A decoded
  JSON value is one of Python's \<^verbatim>\<open>None\<close>, \<^verbatim>\<open>bool\<close>, \<^verbatim>\<open>int\<close>,
  \<^verbatim>\<open>float\<close>, \<^verbatim>\<open>str\<close>, \<^verbatim>\<open>list\<close> or \<^verbatim>\<open>dict\<close> with string keys. A
  dict is an association list read with \<open>map_of\<close>.
\<close>

datatype json =
    JNull
  | JBool bool
  | JInt int
  | JFloat real
  | JStr string
  | JList "json list"
  | JDict "(string \<times> json) list"

text \<open>The exceptions the scripts raise or let through.\<close>

datatype exn =
    RuntimeError string       \<comment> \<open>raised by \<^verbatim>\<open>call_api\<close> itself\<close>
  | HTTPError int             \<comment> \<open>\<^verbatim>\<open>requests\<close>: \<^verbatim>\<open>raise_for_status\<close>, with the status\<close>
  | RequestException string   \<comment> \<open>\<^verbatim>\<open>requests\<close>: timeout, connection reset, ...\<close>
  | JSONDecodeError           \<comment> \<open>\<^verbatim>\<open>r.json()\<close> on a body that is not JSON\<close>
  | AttributeError string     \<comment> \<open>attribute lookup on a value that lacks it\<close>
  | KeyError string           \<comment> \<open>\<^verbatim>\<open>d[k]\<close> with \<^verbatim>\<open>k\<close> absent\<close>
  | ValueError string         \<comment> \<open>\<^verbatim>\<open>pandas.read_html\<close>: no table found\<close>

text \<open>\<^verbatim>\<open>isinstance(v, list)\<close> and \<^verbatim>\<open>isinstance(v, dict)\<close>.\<close>

fun isinstance_list :: "json \<Rightarrow> bool" where
  "isinstance_list (JList _) = True"
| "isinstance_list _ = False"

fun isinstance_dict :: "json \<Rightarrow> bool" where
  "isinstance_dict (JDict _) = True"
| "isinstance_dict _ = False"

text \<open>Iterating a value known to be a list.\<close>

fun elements :: "json \<Rightarrow> json list" where
  "elements (JList xs) = xs"
| "elements _ = []"

text \<open>\<^verbatim>\<open>d.get(key)\<close> on a dict: the value, or \<^verbatim>\<open>None\<close> when the key is absent.\<close>

definition dict_get :: "(string \<times> json) list \<Rightarrow> string \<Rightarrow> json" where
  "dict_get d key = (case map_of d key of None \<Rightarrow> JNull | Some v \<Rightarrow> v)"

section \<open>The structured-JSON normalizer\<close>

text \<open>
  \<^verbatim>\<open>
  def normalize(payload: Dict[str, Any]) -> List[Dict[str, Any]]:
      data = payload.get("data")
      if isinstance(data, list):
          return [r for r in data if isinstance(r, dict)]
      for key in ("rows", "result", "results"):
          v = payload.get(key)
          if isinstance(v, list):
              return [r for r in v if isinstance(r, dict)]
      return []
  \<close>
  The annotation is not enforced: \<^verbatim>\<open>call_api\<close> hands over whatever \<^verbatim>\<open>r.json()\<close>
  decoded. Only a dict has the method \<^verbatim>\<open>get\<close>; on any other value the first line
  raises \<^verbatim>\<open>AttributeError\<close>.
\<close>

fun normalize_loop :: "(string \<times> json) list \<Rightarrow> string list \<Rightarrow> json list" where
  "normalize_loop payload [] = []"
| "normalize_loop payload (key # keys) =
     (let v = dict_get payload key in
      if isinstance_list v then filter isinstance_dict (elements v)
      else normalize_loop payload keys)"

fun normalize_json :: "json \<Rightarrow> exn + json list" where
  "normalize_json (JDict payload) =
     (let data = dict_get payload ''data'' in
      if isinstance_list data then Inr (filter isinstance_dict (elements data))
      else Inr (normalize_loop payload [''rows'', ''result'', ''results'']))"
| "normalize_json _ = Inl (AttributeError ''get'')"

text \<open>
  The normalizer as the specification words it, read off the mapping itself: a candidate
  key holds a sequence when the mapping binds it to a list; the result comes from the
  first such key in the priority order and keeps, in their order, the elements that are
  mappings.
\<close>

definition candidate_keys :: "string list" where
  "candidate_keys = [''data'', ''rows'', ''result'', ''results'']"

fun holds_sequence :: "json option \<Rightarrow> bool" where
  "holds_sequence (Some (JList xs)) = True"
| "holds_sequence _ = False"

fun mappings_of :: "json option \<Rightarrow> json list" where
  "mappings_of (Some (JList xs)) = filter (\<lambda>r. case r of JDict fields \<Rightarrow> True | _ \<Rightarrow> False) xs"
| "mappings_of _ = []"

definition normalize_spec :: "(string \<times> json) list \<Rightarrow> json list" where
  "normalize_spec payload =
     (case find (\<lambda>key. holds_sequence (map_of payload key)) candidate_keys of
        None \<Rightarrow> []
      | Some key \<Rightarrow> mappings_of (map_of payload key))"

section \<open>The persister\<close>




section \<open>Python's \<^verbatim>\<open>str\<close> on integers\<close>

text \<open>
  \<^verbatim>\<open>str(n)\<close> of an \<^verbatim>\<open>int\<close> is its decimal numeral, with a minus sign when negative. It is
  used for \<^verbatim>\<open>str(month)\<close>, \<^verbatim>\<open>str(SEASON)\<close>, \<^verbatim>\<open>map(str, players)\<close> and the
  status in the f-string of \<^verbatim>\<open>call_api\<close>.
\<close>

definition digit_char :: "nat \<Rightarrow> char" where
  "digit_char d = ''0123456789'' ! d"

function str_nat :: "nat \<Rightarrow> string" where
  "str_nat n = (if n < 10 then [digit_char n] else str_nat (n div 10) @ [digit_char (n mod 10)])"
  by pat_completeness auto
termination
  by (relation "measure id") auto

definition str_int :: "int \<Rightarrow> string" where
  "str_int i = (if i < 0 then CHR ''-'' # str_nat (nat (- i)) else str_nat (nat i))"

declare str_nat.simps [simp del]

section \<open>The network and the clock\<close>

text \<open>
  The scripts act on the world through \<^verbatim>\<open>requests.get\<close> and \<^verbatim>\<open>time.sleep\<close>. The world
  is the list of these events, oldest first, threaded through every function that has an
  effect. What the provider answers is a parameter: a \<open>transport\<close> gives, for the number
  of requests issued so far and the request, what \<^verbatim>\<open>requests.get\<close> does, which is to raise
  or to return a response. Of a response the scripts read the status, the text and the
  decoded body (\<^verbatim>\<open>r.json()\<close>, which raises when the text is not JSON: \<open>None\<close>).
  Delays are Python floats; they are modelled as exact reals.
\<close>

datatype response = Response (status_code: int) (resp_text: string) (json_body: "json option")

datatype request =
  Request (req_url: string) (req_params: "(string \<times> string) list")
    (req_headers: "(string \<times> string) list") (req_timeout: nat)

datatype outcome = Raises exn | Returns response

type_synonym transport = "nat \<Rightarrow> request \<Rightarrow> outcome"

datatype event = Get request | Sleep real

fun is_get :: "event \<Rightarrow> bool" where
  "is_get (Get _) = True"
| "is_get (Sleep _) = False"

definition gets :: "event list \<Rightarrow> nat" where
  "gets evs = length (filter is_get evs)"

definition requests_get :: "transport \<Rightarrow> request \<Rightarrow> event list \<Rightarrow> outcome \<times> event list" where
  "requests_get net req evs = (net (gets evs) req, evs @ [Get req])"

definition time_sleep :: "real \<Rightarrow> event list \<Rightarrow> event list" where
  "time_sleep d evs = evs @ [Sleep d]"

text \<open>
  \<^verbatim>\<open>Response.raise_for_status\<close> of the \<^verbatim>\<open>requests\<close> library raises \<^verbatim>\<open>HTTPError\<close> for a
  client error (400 to 499) or a server error (500 to 599), and for no other status.
\<close>

definition raise_for_status :: "response \<Rightarrow> exn + unit" where
  "raise_for_status r =
     (if 400 \<le> status_code r \<and> status_code r < 600 then Inl (HTTPError (status_code r))
      else Inr ())"

definition r_json :: "response \<Rightarrow> exn + json" where
  "r_json r = (case json_body r of None \<Rightarrow> Inl JSONDecodeError | Some j \<Rightarrow> Inr j)"

section \<open>The structured-mode fetcher\<close>

text \<open>
  \<^verbatim>\<open>
  def call_api(params: Dict[str, Any], tries: int = 6) -> Dict[str, Any]:
      delay = 2.0
      last_err: Optional[Exception] = None
      for attempt in range(1, tries + 1):
          try:
              r = requests.get(API, params=params, timeout=60, headers={
                  "User-Agent": "Mozilla/5.0 (CBL dashboard bot)",
                  "Accept": "application/json,text/plain,*/*",
                  "Referer": "https://www.fangraphs.com/leaders/major-league",
              })
              if r.status_code in (429, 403, 502, 503, 504):
                  raise RuntimeError(f"HTTP {r.status_code}: {r.text[:200]}")
              r.raise_for_status()
              return r.json()
          except Exception as e:
              last_err = e
              if attempt == tries:
                  raise
              time.sleep(delay)
              delay = min(delay * 1.8, 20.0)
      raise last_err or RuntimeError("Unknown error")
  \<close>
  \<open>attempt_result\<close> is the \<^verbatim>\<open>try\<close> block after \<^verbatim>\<open>requests.get\<close>, \<open>attempt_body\<close> the whole
  block, \<open>call_api_loop\<close> the \<^verbatim>\<open>for\<close> loop from a given \<^verbatim>\<open>attempt\<close> on, with the statement
  after the loop as its exit.
\<close>

definition API :: string where
  "API = ''https://www.fangraphs.com/api/leaders/major-league/data''"

definition api_request :: "(string \<times> string) list \<Rightarrow> request" where
  "api_request params =
     Request API params
       [(''User-Agent'', ''Mozilla/5.0 (CBL dashboard bot)''),
        (''Accept'', ''application/json,text/plain,*/*''),
        (''Referer'', ''https://www.fangraphs.com/leaders/major-league'')]
       60"

definition retry_statuses :: "int list" where
  "retry_statuses = [429, 403, 502, 503, 504]"

fun attempt_result :: "outcome \<Rightarrow> exn + json" where
  "attempt_result (Raises e) = Inl e"
| "attempt_result (Returns r) =
     (if status_code r \<in> set retry_statuses
      then Inl (RuntimeError (''HTTP '' @ str_int (status_code r) @ '': '' @ take 200 (resp_text r)))
      else case raise_for_status r of
             Inl e \<Rightarrow> Inl e
           | Inr _ \<Rightarrow> r_json r)"

definition attempt_body ::
  "transport \<Rightarrow> (string \<times> string) list \<Rightarrow> event list \<Rightarrow> (exn + json) \<times> event list" where
  "attempt_body net params evs =
     (case requests_get net (api_request params) evs of (out, evs') \<Rightarrow> (attempt_result out, evs'))"

function call_api_loop ::
  "transport \<Rightarrow> (string \<times> string) list \<Rightarrow> nat \<Rightarrow> nat \<Rightarrow> real \<Rightarrow> exn option \<Rightarrow> event list
     \<Rightarrow> (exn + json) \<times> event list" where
  "call_api_loop net params tries attempt delay last_err evs =
     (if tries < attempt
      then (Inl (case last_err of Some e \<Rightarrow> e | None \<Rightarrow> RuntimeError ''Unknown error''), evs)
      else case attempt_body net params evs of
             (Inr j, evs') \<Rightarrow> (Inr j, evs')
           | (Inl e, evs') \<Rightarrow>
               if attempt = tries then (Inl e, evs')
               else call_api_loop net params tries (attempt + 1) (min (delay * 1.8) 20.0) (Some e)
                      (time_sleep delay evs'))"
  by pat_completeness auto
termination
  by (relation "measure (\<lambda>(net, params, tries, attempt, delay, last_err, evs). Suc tries - attempt)") auto

definition call_api ::
  "transport \<Rightarrow> (string \<times> string) list \<Rightarrow> nat \<Rightarrow> event list \<Rightarrow> (exn + json) \<times> event list" where
  "call_api net params tries evs = call_api_loop net params tries 1 2.0 None evs"


text \<open>
  The specification's retry condition: the status is one of the transient codes, or some
  statement of the attempt raises (\<^verbatim>\<open>requests.get\<close> itself, \<^verbatim>\<open>raise_for_status\<close>, or the
  decoding of the body).
\<close>

definition attempt_fails :: "outcome \<Rightarrow> bool" where
  "attempt_fails out =
     (case out of
        Raises e \<Rightarrow> True
      | Returns r \<Rightarrow>
          status_code r \<in> {429, 403, 502, 503, 504} \<or> isl (raise_for_status r) \<or> isl (r_json r))"

text \<open>What \<^verbatim>\<open>requests.get\<close> does at attempt \<open>k + 1\<close> of a call that starts in world \<open>evs\<close>.\<close>

definition attempt_outcome ::
  "transport \<Rightarrow> (string \<times> string) list \<Rightarrow> event list \<Rightarrow> nat \<Rightarrow> outcome" where
  "attempt_outcome net params evs k = net (gets evs + k) (api_request params)"

text \<open>The delays slept in a world, in order.\<close>

fun sleeps :: "event list \<Rightarrow> real list" where
  "sleeps [] = []"
| "sleeps (Get _ # es) = sleeps es"
| "sleeps (Sleep d # es) = d # sleeps es"

text \<open>
  The specification's backoff: the delay starts at the base 2.0, is multiplied by 1.8
  after each failed attempt and is capped at 20.0.
\<close>

fun backoff :: "nat \<Rightarrow> real" where
  "backoff 0 = 2.0"
| "backoff (Suc k) = min (backoff k * 1.8) 20.0"

text \<open>
  The events of a run with \<open>m\<close> failed attempts, each followed by its delay, and a last
  attempt, from the delay \<open>d\<close> on.
\<close>

fun schedule :: "request \<Rightarrow> nat \<Rightarrow> real \<Rightarrow> event list" where
  "schedule req 0 d = [Get req]"
| "schedule req (Suc m) d = Get req # Sleep d # schedule req m (min (d * 1.8) 20.0)"

section \<open>The Segment Registry and the job list\<close>

text \<open>
  Both scripts hold the same constants: the season, the five segments of player IDs, and
  in \<^verbatim>\<open>main\<close> the list of jobs \<^verbatim>\<open>(out_name, seg_key, stats, month)\<close>.
\<close>

definition SEASON :: int where
  "SEASON = 2025"

definition SEGMENTS :: "(string \<times> int list) list" where
  "SEGMENTS =
     [(''hit_am'',
       [26546, 27915, 19455, 23802, 16925, 15654, 30028, 21496, 16398, 33280, 29646,
        35108, 30038, 21587, 31912, 21547, 25629, 21535, 19458, 25183, 25705, 23395,
        23695, 31363, 24878, 23372, 25477, 29830, 31661, 26202, 31370, 28253, 27690,
        23968, 27501, 26374, 26244, 29844, 27963, 24605]),
      (''hit_nz'',
       [10655, 18054, 27789, 22766, 19960, 29571, 19877, 30063, 26148, 26143, 10200,
        29949, 31396, 25999, 31583, 19562]),
      (''sp'',
       [31764, 13050, 26056, 20370, 31815, 19736, 30113, 31312, 26171, 27932, 31623,
        23301, 19666, 26482, 19222, 14120, 31475, 23735, 17732, 15094, 26440, 13580,
        16358, 20629]),
      (''rp_am'',
       [31764, 25327, 29633, 26203, 13050, 26136, 21345, 33568, 27695, 19804, 31815,
        19736, 13607, 30161, 9174, 30113, 30206, 27662, 15256, 27481, 22113, 31312,
        25873, 33248, 27974, 26260, 22176, 27626, 19586, 23324, 27583, 21863, 19835,
        20546, 26259, 27932, 21212, 18674, 23301, 19666, 26482, 16631, 19205, 30016,
        24591, 16128, 24590, 13190, 27984, 25957, 27271, 21924, 15514, 29615, 20515,
        19222, 14120, 31884, 23811, 25839, 24710, 26353, 22288, 29770, 20827]),
      (''rp_nz'',
       [17732, 19281, 29564, 33821, 15094, 24094, 26440, 13580, 26344, 26285, 20629,
        20379])]"

definition tasks :: "(string \<times> string \<times> string \<times> int) list" where
  "tasks =
     [(''hit_am_bat_all'', ''hit_am'', ''bat'', 0),
      (''hit_am_bat_lhp'', ''hit_am'', ''bat'', 13),
      (''hit_am_bat_rhp'', ''hit_am'', ''bat'', 14),
      (''hit_nz_bat_all'', ''hit_nz'', ''bat'', 0),
      (''hit_nz_bat_lhp'', ''hit_nz'', ''bat'', 13),
      (''hit_nz_bat_rhp'', ''hit_nz'', ''bat'', 14),
      (''sp_pit_all'', ''sp'', ''pit'', 0),
      (''sp_pit_lhb'', ''sp'', ''pit'', 13),
      (''sp_pit_rhb'', ''sp'', ''pit'', 14),
      (''rp_am_pit_all'', ''rp_am'', ''pit'', 0),
      (''rp_am_pit_lhb'', ''rp_am'', ''pit'', 13),
      (''rp_am_pit_rhb'', ''rp_am'', ''pit'', 14),
      (''rp_nz_pit_all'', ''rp_nz'', ''pit'', 0),
      (''rp_nz_pit_lhb'', ''rp_nz'', ''pit'', 13),
      (''rp_nz_pit_rhb'', ''rp_nz'', ''pit'', 14)]"

section \<open>The Request Descriptor Builder\<close>

text \<open>\<^verbatim>\<open>sep.join(xs)\<close>.\<close>

fun join :: "string \<Rightarrow> string list \<Rightarrow> string" where
  "join sep [] = []"
| "join sep [x] = x"
| "join sep (x # y # ys) = x @ sep @ join sep (y # ys)"

text \<open>
  \<^verbatim>\<open>
  def leaders_params(players: List[int], stats: str, month: int) -> Dict[str, Any]:
      return {
          "ind": "0",
          "lg": "all",
          "pos": "all",
          "qual": "0",
          "season": str(SEASON),
          "season1": str(SEASON),
          "stats": stats,        # bat | pit
          "month": str(month),   # 0 all; 13 vs L; 14 vs R (leaders UI)
          "players": ",".join(map(str, players)),
          "team": "0,ts",
          "rost": "0",
          "type": "8",
          "sortcol": "17",
          "sortdir": "default",
          "pageitems": "2000",
          "pagenum": "1",
          "filter": "",
      }
  \<close>
\<close>

definition leaders_params :: "int list \<Rightarrow> string \<Rightarrow> int \<Rightarrow> (string \<times> string) list" where
  "leaders_params players stats month =
     [(''ind'', ''0''),
      (''lg'', ''all''),
      (''pos'', ''all''),
      (''qual'', ''0''),
      (''season'', str_int SEASON),
      (''season1'', str_int SEASON),
      (''stats'', stats),
      (''month'', str_int month),
      (''players'', join '','' (map str_int players)),
      (''team'', ''0,ts''),
      (''rost'', ''0''),
      (''type'', ''8''),
      (''sortcol'', ''17''),
      (''sortdir'', ''default''),
      (''pageitems'', ''2000''),
      (''pagenum'', ''1''),
      (''filter'', [])]"

text \<open>
  \<^verbatim>\<open>
  def leaders_url(players: List[int], stats: str, month: int) -> str:
      return (
          "https://www.fangraphs.com/leaders/major-league?"
          f"ind=0&lg=all&pos=all&qual=0&season={SEASON}&season1={SEASON}"
          f"&type=1&stats={stats}&month={month}&players=" + ",".join(map(str, players)) +
          "&pageitems=2000000000"  # effectively infinity
      )
  \<close>
\<close>

definition leaders_url :: "int list \<Rightarrow> string \<Rightarrow> int \<Rightarrow> string" where
  "leaders_url players stats month =
     ''https://www.fangraphs.com/leaders/major-league?''
     @ ''ind=0&lg=all&pos=all&qual=0&season='' @ str_int SEASON @ ''&season1='' @ str_int SEASON
     @ ''&type=1&stats='' @ stats @ ''&month='' @ str_int month @ ''&players=''
     @ join '','' (map str_int players)
     @ ''&pageitems=2000000000''"

text \<open>
  A job's descriptor is built from the registry: \<^verbatim>\<open>players = SEGMENTS[seg_key]\<close>, which
  raises \<^verbatim>\<open>KeyError\<close> for a key the registry lacks, then
  \<^verbatim>\<open>params = leaders_params(players, stats, month)\<close> in \<^verbatim>\<open>fetch_one\<close> of the JSON-API
  script, \<^verbatim>\<open>url = leaders_url(players, stats, month)\<close> in \<^verbatim>\<open>main\<close> of the HTML script. The
  registry is the global \<^verbatim>\<open>SEGMENTS\<close>; it is an argument here.
\<close>

definition segment :: "(string \<times> int list) list \<Rightarrow> string \<Rightarrow> exn + int list" where
  "segment segments seg_key =
     (case map_of segments seg_key of None \<Rightarrow> Inl (KeyError seg_key) | Some players \<Rightarrow> Inr players)"

definition job_params ::
  "(string \<times> int list) list \<Rightarrow> string \<Rightarrow> string \<Rightarrow> int \<Rightarrow> exn + (string \<times> string) list" where
  "job_params segments seg_key stats month =
     (case segment segments seg_key of
        Inl e \<Rightarrow> Inl e
      | Inr players \<Rightarrow> Inr (leaders_params players stats month))"

definition job_url ::
  "(string \<times> int list) list \<Rightarrow> string \<Rightarrow> string \<Rightarrow> int \<Rightarrow> exn + string" where
  "job_url segments seg_key stats month =
     (case segment segments seg_key of
        Inl e \<Rightarrow> Inl e
      | Inr players \<Rightarrow> Inr (leaders_url players stats month))"

text \<open>
  The specification's split selector and its month code. In the scripts a job carries
  the code itself; the split it stands for shows in the job's output name, which ends in
  \<^verbatim>\<open>_all\<close>, in \<^verbatim>\<open>_lhp\<close> or \<^verbatim>\<open>_lhb\<close> (versus left), or in \<^verbatim>\<open>_rhp\<close> or \<^verbatim>\<open>_rhb\<close> (versus
  right).
\<close>

datatype split = All | VsLeft | VsRight

fun month_code :: "split \<Rightarrow> int" where
  "month_code All = 0"
| "month_code VsLeft = 13"
| "month_code VsRight = 14"

definition split_of_name :: "string \<Rightarrow> split option" where
  "split_of_name out_name =
     (let suffix = drop (length out_name - 4) out_name in
      if suffix = ''_all'' then Some All
      else if suffix = ''_lhp'' \<or> suffix = ''_lhb'' then Some VsLeft
      else if suffix = ''_rhp'' \<or> suffix = ''_rhb'' then Some VsRight
      else None)"

definition job_encodes_split :: "string \<times> string \<times> string \<times> int \<Rightarrow> bool" where
  "job_encodes_split job =
     (case job of (out_name, seg_key, stats, month) \<Rightarrow>
        map_option month_code (split_of_name out_name) = Some month)"

text \<open>The fields of the parameter set that no job changes.\<close>

definition fixed_params :: "(string \<times> string) list" where
  "fixed_params =
     [(''ind'', ''0''), (''lg'', ''all''), (''pos'', ''all''), (''qual'', ''0''),
      (''season'', ''2025''), (''season1'', ''2025''), (''team'', ''0,ts''), (''rost'', ''0''),
      (''type'', ''8''), (''sortcol'', ''17''), (''sortdir'', ''default''),
      (''pageitems'', ''2000''), (''pagenum'', ''1''), (''filter'', [])]"


text \<open>The head of the URL that no job changes.\<close>

definition url_head :: string where
  "url_head =
     ''https://www.fangraphs.com/leaders/major-league?ind=0&lg=all&pos=all&qual=0&season=2025&season1=2025''"

text \<open>Reading a comma-joined list back: the pieces between the separators.\<close>

fun split_on :: "char \<Rightarrow> string \<Rightarrow> string list" where
  "split_on c [] = [[]]"
| "split_on c (x # xs) =
     (if x = c then [] # split_on c xs
      else case split_on c xs of [] \<Rightarrow> [[x]] | y # ys \<Rightarrow> (x # y) # ys)"

section \<open>Tables\<close>

text \<open>
  The HTML script hands the page to \<^verbatim>\<open>pandas\<close>. A \<^verbatim>\<open>DataFrame\<close> is an index (here its
  length, the number of data rows) and a list of labelled columns, each an array with one
  cell per row. A cell is a value, or missing (\<^verbatim>\<open>NaN\<close>): \<open>None\<close>.
\<close>

datatype ('c, 'v) dataframe =
  DataFrame (nrows: nat) (series: "('c \<times> 'v option list) list")

definition wellformed :: "('c, 'v) dataframe \<Rightarrow> bool" where
  "wellformed df = list_all (\<lambda>(c, vs). length vs = nrows df) (series df)"

text \<open>
  \<^verbatim>\<open>pandas.read_html(text)\<close>. Finding the tables of a document is a parameter \<open>parse\<close>: it
  fails, or gives the tables found, in document order. The library function never
  returns an empty list: when no table is found it raises \<^verbatim>\<open>ValueError("No tables found")\<close>.
\<close>

type_synonym ('c, 'v) parser = "string \<Rightarrow> exn + ('c, 'v) dataframe list"

definition read_html :: "('c, 'v) parser \<Rightarrow> string \<Rightarrow> exn + ('c, 'v) dataframe list" where
  "read_html parse txt =
     (case parse txt of
        Inl e \<Rightarrow> Inl e
      | Inr [] \<Rightarrow> Inl (ValueError ''No tables found'')
      | Inr (t # ts) \<Rightarrow> Inr (t # ts))"

text \<open>
  \<^verbatim>\<open>df.dropna(axis=1, how="all")\<close> keeps the columns that have at least one cell that is not
  missing; the index is unchanged.
\<close>

definition has_value :: "'c \<times> 'v option list \<Rightarrow> bool" where
  "has_value col = list_ex (\<lambda>v. v \<noteq> None) (snd col)"

definition dropna_all_columns :: "('c, 'v) dataframe \<Rightarrow> ('c, 'v) dataframe" where
  "dropna_all_columns df = DataFrame (nrows df) (filter has_value (series df))"

text \<open>
  \<^verbatim>\<open>s.strip()\<close> removes the whitespace at both ends. A \<open>char\<close> stands for a code point
  below 256; Python's whitespace there is 9 to 13, 28 to 32, 133 and 160.
\<close>

definition is_space :: "char \<Rightarrow> bool" where
  "is_space c = ((of_char c :: nat) \<in> {9, 10, 11, 12, 13, 28, 29, 30, 31, 32, 133, 160})"

definition strip :: "string \<Rightarrow> string" where
  "strip s = rev (dropWhile is_space (rev (dropWhile is_space s)))"

text \<open>
  \<^verbatim>\<open>df.columns = [str(c).strip() for c in df.columns]\<close>. A label is a string, an integer
  or a tuple; \<^verbatim>\<open>str\<close> on labels is a parameter.
\<close>

definition rename_columns :: "('c \<Rightarrow> string) \<Rightarrow> ('c, 'v) dataframe \<Rightarrow> (string, 'v) dataframe" where
  "rename_columns str df = DataFrame (nrows df) (map (\<lambda>(c, vs). (strip (str c), vs)) (series df))"

text \<open>
  \<^verbatim>\<open>zip(*arrays)\<close>: the tuples of the cells at the same position, as long as every array has
  one; with no array at all there is no tuple.
\<close>

function zip_star :: "'a list list \<Rightarrow> 'a list list" where
  "zip_star arrays =
     (if arrays = [] \<or> [] \<in> set arrays then []
      else map hd arrays # zip_star (map tl arrays))"
  by pat_completeness auto
termination
proof (relation "measure (\<lambda>arrays. length (hd arrays))")
  show "wf (measure (\<lambda>arrays. length (hd arrays)))"
    by simp
next
  fix arrays :: "'a list list"
  assume "\<not> (arrays = [] \<or> [] \<in> set arrays)"
  then obtain a rest where "arrays = a # rest" "a \<noteq> []"
    by (cases arrays) auto
  then show "(map tl arrays, arrays) \<in> measure (\<lambda>arrays. length (hd arrays))"
    by simp
qed

declare zip_star.simps [simp del]

text \<open>\<^verbatim>\<open>dict(pairs)\<close>: of two pairs with the same key the later one stays.\<close>

definition dict_of :: "('k \<times> 'a) list \<Rightarrow> ('k \<rightharpoonup> 'a)" where
  "dict_of pairs = map_of (rev pairs)"

text \<open>
  \<^verbatim>\<open>df.to_dict(orient="records")\<close> is, in \<^verbatim>\<open>pandas\<close>,
  \<^verbatim>\<open>[dict(zip(columns, row)) for row in df.itertuples(index=False, name=None)]\<close>, and
  \<^verbatim>\<open>itertuples\<close> without the index is \<^verbatim>\<open>zip(*arrays)\<close> over the column arrays.
\<close>

definition itertuples :: "('c, 'v) dataframe \<Rightarrow> 'v option list list" where
  "itertuples df = zip_star (map snd (series df))"

definition to_dict_records :: "('c, 'v) dataframe \<Rightarrow> ('c \<rightharpoonup> 'v option) list" where
  "to_dict_records df = map (\<lambda>row. dict_of (zip (map fst (series df)) row)) (itertuples df)"

section \<open>The HTML-mode fetcher and normalizer\<close>

text \<open>
  \<^verbatim>\<open>
  def scrape_table(url: str) -> List[Dict[str, Any]]:
      r = requests.get(url, timeout=60, headers={"User-Agent":"Mozilla/5.0 (CBL dashboard bot)"})
      r.raise_for_status()

      # FanGraphs renders a data table in the HTML that pandas can usually read.
      # If they change markup, we fail loudly so we can adjust.
      tables = pd.read_html(r.text)
      if not tables:
          return []
      df = tables[0]

      # Clean: drop completely empty columns, normalize column names.
      df = df.dropna(axis=1, how="all")
      df.columns = [str(c).strip() for c in df.columns]

      # Convert to records; keep raw columns (standard preset) as-is.
      records = df.to_dict(orient="records")
      return records
  \<close>
  \<open>table_records\<close> is the function from \<^verbatim>\<open>df = tables[0]\<close> on, \<open>html_records\<close> from
  \<^verbatim>\<open>pd.read_html\<close> on.
\<close>

definition html_request :: "string \<Rightarrow> request" where
  "html_request url = Request url [] [(''User-Agent'', ''Mozilla/5.0 (CBL dashboard bot)'')] 60"

definition table_records :: "('c \<Rightarrow> string) \<Rightarrow> ('c, 'v) dataframe \<Rightarrow> (string \<rightharpoonup> 'v option) list" where
  "table_records str df = to_dict_records (rename_columns str (dropna_all_columns df))"

definition html_records ::
  "('c, 'v) parser \<Rightarrow> ('c \<Rightarrow> string) \<Rightarrow> string \<Rightarrow> exn + (string \<rightharpoonup> 'v option) list" where
  "html_records parse str txt =
     (case read_html parse txt of
        Inl e \<Rightarrow> Inl e
      | Inr tables \<Rightarrow>
          (case tables of
             [] \<Rightarrow> Inr []
           | df # _ \<Rightarrow> Inr (table_records str df)))"

definition scrape_table ::
  "('c, 'v) parser \<Rightarrow> ('c \<Rightarrow> string) \<Rightarrow> transport \<Rightarrow> string \<Rightarrow> event list
     \<Rightarrow> (exn + (string \<rightharpoonup> 'v option) list) \<times> event list" where
  "scrape_table parse str net url evs =
     (case requests_get net (html_request url) evs of
        (Raises e, evs') \<Rightarrow> (Inl e, evs')
      | (Returns r, evs') \<Rightarrow>
          (case raise_for_status r of
             Inl e \<Rightarrow> (Inl e, evs')
           | Inr _ \<Rightarrow> (html_records parse str (resp_text r), evs')))"

section \<open>Properties of the structured-JSON normalizer\<close>

lemma normalize_loop_find:
  "normalize_loop payload keys =
     (case find (\<lambda>key. isinstance_list (dict_get payload key)) keys of
        None \<Rightarrow> []
      | Some key \<Rightarrow> filter isinstance_dict (elements (dict_get payload key)))"
  by (induction keys) (simp_all add: Let_def)



lemma isinstance_dict_case:
  "isinstance_dict = (\<lambda>r. case r of JDict fields \<Rightarrow> True | _ \<Rightarrow> False)"
proof
  fix r show "isinstance_dict r = (case r of JDict fields \<Rightarrow> True | _ \<Rightarrow> False)"
    by (cases r) simp_all
qed

lemma get_holds_sequence:
  "isinstance_list (dict_get payload key) = holds_sequence (map_of payload key)"
proof (cases "map_of payload key")
  case None
  then show ?thesis by (simp add: dict_get_def)
next
  case (Some v)
  then show ?thesis by (cases v) (simp_all add: dict_get_def)
qed

lemma get_mappings_of:
  "filter isinstance_dict (elements (dict_get payload key)) = mappings_of (map_of payload key)"
proof (cases "map_of payload key")
  case None
  then show ?thesis by (simp add: dict_get_def)
next
  case (Some v)
  then show ?thesis by (cases v) (simp_all add: dict_get_def isinstance_dict_case)
qed



text \<open>A payload that is not a mapping has no \<^verbatim>\<open>get\<close>: the first line raises.\<close>

lemma normalize_json_non_mapping:
  "\<not> isinstance_dict payload \<Longrightarrow> normalize_json payload = Inl (AttributeError ''get'')"
  by (cases payload) simp_all

text \<open>
  C3. For every payload mapping, \<^verbatim>\<open>normalize\<close> returns the value of the first key among
  "data", "rows", "result", "results" (in this order) whose value is a sequence, later
  candidates ignored, and of that sequence exactly the elements that are mappings, in
  their order.
\<close>

theorem normalize_first_candidate:
  "normalize_json (JDict payload) = Inr (normalize_spec payload)"
  by (simp add: normalize_spec_def candidate_keys_def normalize_loop_find Let_def
      get_holds_sequence get_mappings_of)

text \<open>
  A payload whose "data" is not a sequence and whose "rows" and "results" both are: the
  rows win, although "results" comes first in the payload, and of the five elements of
  "rows" the two mappings are kept, in their order.
\<close>

theorem normalize_first_candidate_witness:
  "normalize_json (JDict
      [(''data'', JStr ''n/a''),
       (''results'', JList [JDict [(''Name'', JStr ''Z'')]]),
       (''rows'', JList [JDict [(''Name'', JStr ''A'')], JNull, JInt 3, JList [],
                         JDict [(''Name'', JStr ''B'')]])])
   = Inr [JDict [(''Name'', JStr ''A'')], JDict [(''Name'', JStr ''B'')]]"
proof -
  have "normalize_spec
      [(''data'', JStr ''n/a''),
       (''results'', JList [JDict [(''Name'', JStr ''Z'')]]),
       (''rows'', JList [JDict [(''Name'', JStr ''A'')], JNull, JInt 3, JList [],
                         JDict [(''Name'', JStr ''B'')]])]
    = [JDict [(''Name'', JStr ''A'')], JDict [(''Name'', JStr ''B'')]]"
    by (simp add: normalize_spec_def candidate_keys_def)
  with normalize_first_candidate show ?thesis
    by simp
qed

text \<open>
  C4. For every payload mapping in which no candidate key holds a sequence,
  \<^verbatim>\<open>normalize\<close> returns the empty sequence and raises nothing.
\<close>

theorem normalize_no_candidate:
  assumes "\<forall>key \<in> set candidate_keys. \<not> isinstance_list (dict_get payload key)"
  shows "normalize_json (JDict payload) = Inr []"
  using assms by (simp add: candidate_keys_def Let_def)

theorem normalize_no_candidate_witness:
  "list_all (\<lambda>key. \<not> isinstance_list (dict_get [(''total'', JInt 3), (''rows'', JStr ''none'')] key))
     candidate_keys
   \<and> normalize_json (JDict [(''total'', JInt 3), (''rows'', JStr ''none'')]) = Inr []"
proof -
  have h: "\<forall>key \<in> set candidate_keys.
      \<not> isinstance_list (dict_get [(''total'', JInt 3), (''rows'', JStr ''none'')] key)"
    by (simp add: candidate_keys_def dict_get_def)
  from normalize_no_candidate [OF h] h show ?thesis by (simp add: list_all_iff)
qed



section \<open>Properties of the structured-mode fetcher\<close>

lemma isl_attempt_result: "isl (attempt_result out) = attempt_fails out"
  by (cases out)
     (auto simp: attempt_fails_def retry_statuses_def split: sum.splits)

lemma gets_append [simp]: "gets (xs @ ys) = gets xs + gets ys"
  by (simp add: gets_def)

lemma gets_simps [simp]: "gets [] = 0" "gets (Get r # es) = Suc (gets es)" "gets (Sleep d # es) = gets es"
  by (simp_all add: gets_def)

lemma call_api_loop_run:
  "attempt \<le> tries \<Longrightarrow>
   \<exists>m. attempt + m \<le> tries
     \<and> snd (call_api_loop net params tries attempt delay last_err evs)
         = evs @ schedule (api_request params) m delay
     \<and> (\<forall>k<m. attempt_fails (attempt_outcome net params evs k))
     \<and> (attempt + m < tries \<longrightarrow> \<not> attempt_fails (attempt_outcome net params evs m))
     \<and> fst (call_api_loop net params tries attempt delay last_err evs)
         = attempt_result (attempt_outcome net params evs m)"
proof (induction net params tries attempt delay last_err evs rule: call_api_loop.induct)
  case (1 net params tries attempt delay last_err evs)
  let ?req = "api_request params"
  let ?out = "net (gets evs) ?req"
  have body: "attempt_body net params evs = (attempt_result ?out, evs @ [Get ?req])"
    by (simp add: attempt_body_def requests_get_def)
  show ?case
  proof (cases "attempt_result ?out")
    case (Inr j)
    then have "\<not> attempt_fails ?out"
      using isl_attempt_result [of ?out] by simp
    with Inr body "1.prems" show ?thesis
      by (intro exI [of _ 0]) (simp add: attempt_outcome_def)
  next
    case (Inl e)
    then have fails: "attempt_fails ?out"
      using isl_attempt_result [of ?out] by simp
    show ?thesis
    proof (cases "attempt = tries")
      case True
      with Inl body "1.prems" show ?thesis
        by (intro exI [of _ 0]) (simp add: attempt_outcome_def)
    next
      case False
      let ?evs' = "time_sleep delay (evs @ [Get ?req])"
      let ?d' = "min (delay * 1.8) 20.0"
      from False "1.prems" have lt: "attempt + 1 \<le> tries" by simp
      have unfold: "call_api_loop net params tries attempt delay last_err evs
          = call_api_loop net params tries (attempt + 1) ?d' (Some e) ?evs'"
        using False "1.prems" Inl body by (subst call_api_loop.simps) simp
      from "1.prems" have nlt: "\<not> tries < attempt" by simp
      from "1.IH" [OF nlt body [symmetric] Inl False lt]
      obtain m where m: "attempt + 1 + m \<le> tries"
        "snd (call_api_loop net params tries (attempt + 1) ?d' (Some e) ?evs')
           = ?evs' @ schedule ?req m ?d'"
        "\<forall>k<m. attempt_fails (attempt_outcome net params ?evs' k)"
        "attempt + 1 + m < tries \<longrightarrow> \<not> attempt_fails (attempt_outcome net params ?evs' m)"
        "fst (call_api_loop net params tries (attempt + 1) ?d' (Some e) ?evs')
           = attempt_result (attempt_outcome net params ?evs' m)"
        by auto
      have shift: "attempt_outcome net params ?evs' k = attempt_outcome net params evs (Suc k)" for k
        by (simp add: attempt_outcome_def time_sleep_def)
      have all: "\<forall>k<Suc m. attempt_fails (attempt_outcome net params evs k)"
      proof (intro allI impI)
        fix k assume "k < Suc m"
        show "attempt_fails (attempt_outcome net params evs k)"
        proof (cases k)
          case 0
          with fails show ?thesis by (simp add: attempt_outcome_def)
        next
          case (Suc k')
          with \<open>k < Suc m\<close> m(3) shift show ?thesis by auto
        qed
      qed
      show ?thesis
        using m all unfold shift
        by (intro exI [of _ "Suc m"]) (simp add: time_sleep_def)
    qed
  qed
qed


lemma gets_schedule: "gets (schedule req m d) = Suc m"
  by (induction m arbitrary: d) simp_all

lemma length_schedule: "length (schedule req m d) = 2 * m + 1"
  by (induction m arbitrary: d) simp_all

lemma sleeps_schedule: "sleeps (schedule req m (backoff j)) = map backoff [j..<j + m]"
proof (induction m arbitrary: j)
  case 0
  show ?case by simp
next
  case (Suc m)
  have "sleeps (schedule req (Suc m) (backoff j))
      = backoff j # sleeps (schedule req m (backoff (Suc j)))"
    by simp
  also have "\<dots> = backoff j # map backoff [Suc j..<Suc j + m]"
    by (simp only: Suc.IH)
  also have "\<dots> = map backoff [j..<j + Suc m]"
    by (simp add: upt_conv_Cons del: upt_Suc)
  finally show ?case .
qed

lemma schedule_nth_get:
  "i < length (schedule req m d) \<Longrightarrow> is_get (schedule req m d ! i) = even i"
proof (induction m arbitrary: d i)
  case 0
  then show ?case by simp
next
  case (Suc m)
  show ?case
  proof (cases i)
    case 0
    then show ?thesis by simp
  next
    case (Suc i1)
    show ?thesis
    proof (cases i1)
      case 0
      with Suc show ?thesis by simp
    next
      case (Suc i2)
      with \<open>i = Suc i1\<close> Suc.prems have "i2 < length (schedule req m (min (d * 1.8) 20.0))"
        by simp
      from Suc.IH [OF this] Suc \<open>i = Suc i1\<close> show ?thesis by simp
    qed
  qed
qed

lemma sleep_between_gets:
  assumes "i < length (schedule req m d)" and "\<not> is_get (schedule req m d ! i)"
  shows "0 < i \<and> Suc i < length (schedule req m d)
     \<and> is_get (schedule req m d ! (i - 1)) \<and> is_get (schedule req m d ! Suc i)"
proof -
  from assms have odd: "odd i"
    by (simp add: schedule_nth_get)
  then have pos: "0 < i"
    by (cases i) simp_all
  from odd assms(1) have next_in: "Suc i < length (schedule req m d)"
    by (auto simp: length_schedule elim!: oddE)
  from pos assms(1) have prev_in: "i - 1 < length (schedule req m d)"
    by simp
  from odd pos have "even (i - 1)" by simp
  with prev_in have "is_get (schedule req m d ! (i - 1))"
    by (simp add: schedule_nth_get)
  moreover from odd next_in have "is_get (schedule req m d ! Suc i)"
    by (simp add: schedule_nth_get)
  ultimately show ?thesis using pos next_in by simp
qed

lemma backoff_first_five: "map backoff [0..<5] = [2.0, 3.6, 6.48, 11.664, 20.0]"
  by (simp add: upt_rec numeral_eq_Suc)

text \<open>
  C1. For every sequence of attempt outcomes, \<^verbatim>\<open>call_api\<close> with its 6 tries makes \<open>n\<close>
  attempts, at least 1 and at most 6; an attempt is followed by another one exactly when it
  fails (its status is in 429, 403, 502, 503, 504, or the attempt raises) and it is not
  the 6th; the call ends with what the last attempt did, and when that is a failure, it was
  the 6th attempt and the call raises its error.
\<close>

theorem call_api_retry_policy:
  "\<exists>n. 1 \<le> n \<and> n \<le> 6
     \<and> gets (snd (call_api net params 6 evs)) = gets evs + n
     \<and> (\<forall>k<n. (Suc k < n) = (attempt_fails (attempt_outcome net params evs k) \<and> Suc k < 6))
     \<and> fst (call_api net params 6 evs) = attempt_result (attempt_outcome net params evs (n - 1))
     \<and> (attempt_fails (attempt_outcome net params evs (n - 1)) \<longrightarrow>
          n = 6 \<and> (\<exists>e. attempt_result (attempt_outcome net params evs 5) = Inl e
                     \<and> fst (call_api net params 6 evs) = Inl e))"
proof -
  from call_api_loop_run [of 1 6 net params "2.0" None evs]
  obtain m where m: "1 + m \<le> 6"
    "snd (call_api net params 6 evs) = evs @ schedule (api_request params) m 2.0"
    "\<forall>k<m. attempt_fails (attempt_outcome net params evs k)"
    "1 + m < 6 \<longrightarrow> \<not> attempt_fails (attempt_outcome net params evs m)"
    "fst (call_api net params 6 evs) = attempt_result (attempt_outcome net params evs m)"
    unfolding call_api_def by auto
  have count: "gets (snd (call_api net params 6 evs)) = gets evs + Suc m"
    by (simp add: m(2) gets_schedule)
  have retried: "(Suc k < Suc m) = (attempt_fails (attempt_outcome net params evs k) \<and> Suc k < 6)"
    if "k < Suc m" for k
  proof (cases "k < m")
    case True
    with m(1) m(3) show ?thesis by simp
  next
    case False
    with that have "k = m" by simp
    with m(4) show ?thesis by auto
  qed
  have last: "m = 5 \<and> (\<exists>e. attempt_result (attempt_outcome net params evs 5) = Inl e
        \<and> fst (call_api net params 6 evs) = Inl e)"
    if fails: "attempt_fails (attempt_outcome net params evs m)"
  proof -
    from fails m(1) m(4) have "m = 5" by auto
    moreover from fails obtain e where "attempt_result (attempt_outcome net params evs m) = Inl e"
      using isl_attempt_result [of "attempt_outcome net params evs m"]
      by (cases "attempt_result (attempt_outcome net params evs m)") simp_all
    ultimately show ?thesis using m(5) by simp
  qed
  have "1 \<le> Suc m \<and> Suc m \<le> 6" using m(1) by simp
  moreover have "\<forall>k<Suc m.
      (Suc k < Suc m) = (attempt_fails (attempt_outcome net params evs k) \<and> Suc k < 6)"
    using retried by blast
  moreover have "fst (call_api net params 6 evs)
      = attempt_result (attempt_outcome net params evs (Suc m - 1))"
    using m(5) by simp
  moreover have "attempt_fails (attempt_outcome net params evs (Suc m - 1)) \<longrightarrow>
      Suc m = 6 \<and> (\<exists>e. attempt_result (attempt_outcome net params evs 5) = Inl e
                     \<and> fst (call_api net params 6 evs) = Inl e)"
    using last by auto
  ultimately show ?thesis
    using count by blast
qed

text \<open>With a provider that answers 503 forever, the sixth failure is raised.\<close>

theorem call_api_retry_policy_witness:
  "fst (call_api (\<lambda>k req. Returns (Response 503 ''busy'' None)) [] 6 [])
     = Inl (RuntimeError ''HTTP 503: busy'')
   \<and> gets (snd (call_api (\<lambda>k req. Returns (Response 503 ''busy'' None)) [] 6 [])) = 6"
proof -
  let ?net = "\<lambda>(k::nat) (req::request). Returns (Response 503 ''busy'' None)"
  have fails: "attempt_fails (attempt_outcome ?net [] [] k)" for k
    by (simp add: attempt_fails_def attempt_outcome_def)
  from call_api_retry_policy [of ?net "[]" "[]"]
  obtain n where n: "1 \<le> n" "n \<le> 6"
    "gets (snd (call_api ?net [] 6 [])) = gets [] + n"
    "\<forall>k<n. (Suc k < n) = (attempt_fails (attempt_outcome ?net [] [] k) \<and> Suc k < 6)"
    "fst (call_api ?net [] 6 []) = attempt_result (attempt_outcome ?net [] [] (n - 1))"
    by blast
  from n(1) have "n - 1 < n" by simp
  with n(4) have "(Suc (n - 1) < n)
      = (attempt_fails (attempt_outcome ?net [] [] (n - 1)) \<and> Suc (n - 1) < 6)"
    by blast
  with fails n(1) n(2) have "n = 6" by simp
  with n(3) n(5) show ?thesis
    by (simp add: attempt_outcome_def retry_statuses_def str_int_def str_nat.simps digit_char_def)
qed

text \<open>
  C2. The events \<^verbatim>\<open>call_api\<close> adds to the world hold at most 5 delays; they are 2.0, then
  each the one before times 1.8, capped at 20.0; every delay has an attempt right before it
  and right after it, so none is slept before the first or after the last attempt; and
  when attempts 1 to 5 fail and attempt 6 succeeds, the five delays are 2.0, 3.6, 6.48,
  11.664, 20.0, strictly increasing, and the call returns the decoded body.
\<close>

theorem call_api_backoff:
  "\<exists>new m. snd (call_api net params 6 evs) = evs @ new \<and> m \<le> 5
     \<and> sleeps new = map backoff [0..<m]
     \<and> (\<forall>i<length new. \<not> is_get (new ! i) \<longrightarrow>
           0 < i \<and> Suc i < length new \<and> is_get (new ! (i - 1)) \<and> is_get (new ! Suc i))
     \<and> ((\<forall>k<5. attempt_fails (attempt_outcome net params evs k))
          \<and> \<not> attempt_fails (attempt_outcome net params evs 5) \<longrightarrow>
            sleeps new = [2.0, 3.6, 6.48, 11.664, 20.0] \<and> sorted_wrt (<) (sleeps new)
            \<and> fst (call_api net params 6 evs) = attempt_result (attempt_outcome net params evs 5))"
proof -
  from call_api_loop_run [of 1 6 net params "2.0" None evs]
  obtain m where m: "1 + m \<le> 6"
    "snd (call_api net params 6 evs) = evs @ schedule (api_request params) m 2.0"
    "\<forall>k<m. attempt_fails (attempt_outcome net params evs k)"
    "1 + m < 6 \<longrightarrow> \<not> attempt_fails (attempt_outcome net params evs m)"
    "fst (call_api net params 6 evs) = attempt_result (attempt_outcome net params evs m)"
    unfolding call_api_def by auto
  let ?new = "schedule (api_request params) m 2.0"
  have delays: "sleeps ?new = map backoff [0..<m]"
    using sleeps_schedule [of "api_request params" m 0] by simp
  have between: "\<forall>i<length ?new. \<not> is_get (?new ! i) \<longrightarrow>
      0 < i \<and> Suc i < length ?new \<and> is_get (?new ! (i - 1)) \<and> is_get (?new ! Suc i)"
    using sleep_between_gets [of _ "api_request params" m "2.0"] by blast
  have run: "sleeps ?new = [2.0, 3.6, 6.48, 11.664, 20.0] \<and> sorted_wrt (<) (sleeps ?new)
      \<and> fst (call_api net params 6 evs) = attempt_result (attempt_outcome net params evs 5)"
    if fails: "\<forall>k<5. attempt_fails (attempt_outcome net params evs k)"
      and ok: "\<not> attempt_fails (attempt_outcome net params evs 5)"
  proof -
    have "m = 5"
    proof (rule ccontr)
      assume "m \<noteq> 5"
      with m(1) have "m < 5" by simp
      with m(4) fails show False by simp
    qed
    with delays m(5) show ?thesis
      by (simp add: backoff_first_five)
  qed
  from m(1) have "m \<le> 5" by simp
  with m(2) delays between run show ?thesis
    by (intro exI [of _ ?new] exI [of _ m]) blast
qed

text \<open>A provider that answers 503 five times and then 200 with a JSON body.\<close>

theorem call_api_backoff_witness:
  "sleeps (snd (call_api
       (\<lambda>k req. if k < 5 then Returns (Response 503 ''busy'' None)
                 else Returns (Response 200 ''{\"data\": []}'' (Some (JDict [(''data'', JList [])]))))
       [] 6 []))
     = [2.0, 3.6, 6.48, 11.664, 20.0]
   \<and> fst (call_api
       (\<lambda>k req. if k < 5 then Returns (Response 503 ''busy'' None)
                 else Returns (Response 200 ''{\"data\": []}'' (Some (JDict [(''data'', JList [])]))))
       [] 6 [])
     = Inr (JDict [(''data'', JList [])])"
proof -
  let ?net = "\<lambda>(k::nat) (req::request).
     if k < 5 then Returns (Response 503 ''busy'' None)
     else Returns (Response 200 ''{\"data\": []}'' (Some (JDict [(''data'', JList [])])))"
  have fails: "\<forall>k<5. attempt_fails (attempt_outcome ?net [] [] k)"
    by (simp add: attempt_fails_def attempt_outcome_def)
  have ok: "\<not> attempt_fails (attempt_outcome ?net [] [] 5)"
    by (simp add: attempt_fails_def attempt_outcome_def raise_for_status_def r_json_def)
  from call_api_backoff [of ?net "[]" "[]"] fails ok
  obtain new where new: "snd (call_api ?net [] 6 []) = [] @ new"
    "sleeps new = [2.0, 3.6, 6.48, 11.664, 20.0]"
    "fst (call_api ?net [] 6 []) = attempt_result (attempt_outcome ?net [] [] 5)"
    by blast
  then show ?thesis
    by (simp add: attempt_outcome_def retry_statuses_def raise_for_status_def r_json_def)
qed

section \<open>Properties of the Request Descriptor Builder\<close>

lemma str_SEASON: "str_int SEASON = ''2025''"
  by (simp add: SEASON_def str_int_def str_nat.simps digit_char_def)

lemma tasks_encode_split: "list_all job_encodes_split tasks"
  by (simp add: tasks_def job_encodes_split_def split_of_name_def)

lemma tasks_segments:
  "list_all (\<lambda>(out_name, seg_key, stats, month). map_of SEGMENTS seg_key \<noteq> None) tasks"
  by (simp add: tasks_def SEGMENTS_def)

lemma params_other_keys:
  "key \<notin> {''stats'', ''month'', ''players''} \<Longrightarrow>
   map_of (leaders_params players stats month) key = map_of fixed_params key"
  by (simp add: leaders_params_def fixed_params_def str_SEASON)

lemma leaders_url_shape:
  "leaders_url players stats month =
     url_head @ ''&type=1&stats='' @ stats @ ''&month='' @ str_int month @ ''&players=''
       @ join '','' (map str_int players) @ ''&pageitems=2000000000''"
  by (simp add: leaders_url_def url_head_def str_SEASON)

lemma digit_char_digit: "d < 10 \<Longrightarrow> digit_char d \<in> set ''0123456789''"
proof -
  assume "d < 10"
  then have "d \<in> {0, 1, 2, 3, 4, 5, 6, 7, 8, 9}" by auto
  then show ?thesis by (auto simp: digit_char_def)
qed

lemma str_nat_digits: "set (str_nat n) \<subseteq> set ''0123456789''"
proof (induction n rule: str_nat.induct)
  case (1 n)
  show ?case
  proof (cases "n < 10")
    case True
    then show ?thesis
      using digit_char_digit [of n] by (subst str_nat.simps) simp
  next
    case False
    have "n mod 10 < 10" by simp
    from digit_char_digit [OF this] "1.IH" [OF False] False show ?thesis
      by (subst str_nat.simps) simp
  qed
qed

lemma str_int_no_comma: "CHR '','' \<notin> set (str_int i)"
  using str_nat_digits [of "nat i"] str_nat_digits [of "nat (- i)"]
  by (auto simp: str_int_def)

lemma split_on_no_sep: "c \<notin> set x \<Longrightarrow> split_on c x = [x]"
  by (induction x) auto

lemma split_on_piece: "c \<notin> set x \<Longrightarrow> split_on c (x @ c # rest) = x # split_on c rest"
  by (induction x) auto

lemma split_on_join:
  "xs \<noteq> [] \<Longrightarrow> \<forall>x \<in> set xs. c \<notin> set x \<Longrightarrow> split_on c (join [c] xs) = xs"
proof (induction "[c]" xs rule: join.induct)
  case 1
  then show ?case by simp
next
  case (2 x)
  then show ?case by (simp add: split_on_no_sep)
next
  case (3 x y ys)
  then show ?case by (simp add: split_on_piece)
qed

text \<open>
  C8. For every segment key present in the registry and every job, the descriptor of
  either mode is built, and what varies with the job in it is exactly the stat-category
  selector, the month code and the comma-joined player IDs in registry order (splitting
  that field at its commas gives the IDs back in this order); every other parameter, and
  the head of the URL, is fixed. The month codes are 0 for all, 13 for versus left and 14
  for versus right, and every job of the job list carries the code of its split.
\<close>

theorem descriptor_job_fields:
  assumes "map_of segments seg_key = Some players"
  shows "(\<exists>ps. job_params segments seg_key stats month = Inr ps
            \<and> map_of ps ''stats'' = Some stats
            \<and> map_of ps ''month'' = Some (str_int month)
            \<and> map_of ps ''players'' = Some (join '','' (map str_int players))
            \<and> (\<forall>key. key \<notin> {''stats'', ''month'', ''players''} \<longrightarrow>
                  map_of ps key = map_of fixed_params key))
     \<and> job_url segments seg_key stats month
         = Inr (url_head @ ''&type=1&stats='' @ stats @ ''&month='' @ str_int month
                @ ''&players='' @ join '','' (map str_int players) @ ''&pageitems=2000000000'')
     \<and> (players \<noteq> [] \<longrightarrow>
          split_on CHR '','' (join '','' (map str_int players)) = map str_int players)
     \<and> map (\<lambda>sp. str_int (month_code sp)) [All, VsLeft, VsRight] = [''0'', ''13'', ''14'']
     \<and> list_all job_encodes_split tasks"
proof -
  have seg: "segment segments seg_key = Inr players"
    using assms by (simp add: segment_def)
  have built: "job_params segments seg_key stats month = Inr (leaders_params players stats month)"
    by (simp add: job_params_def seg)
  have varying: "map_of (leaders_params players stats month) ''stats'' = Some stats"
    "map_of (leaders_params players stats month) ''month'' = Some (str_int month)"
    "map_of (leaders_params players stats month) ''players''
       = Some (join '','' (map str_int players))"
    by (simp_all add: leaders_params_def)
  have fixed: "\<forall>key. key \<notin> {''stats'', ''month'', ''players''} \<longrightarrow>
      map_of (leaders_params players stats month) key = map_of fixed_params key"
    using params_other_keys by (intro allI impI)
  have params: "\<exists>ps. job_params segments seg_key stats month = Inr ps
            \<and> map_of ps ''stats'' = Some stats
            \<and> map_of ps ''month'' = Some (str_int month)
            \<and> map_of ps ''players'' = Some (join '','' (map str_int players))
            \<and> (\<forall>key. key \<notin> {''stats'', ''month'', ''players''} \<longrightarrow>
                  map_of ps key = map_of fixed_params key)"
    by (rule exI [of _ "leaders_params players stats month"]) (intro conjI built varying fixed)
  have url: "job_url segments seg_key stats month
         = Inr (url_head @ ''&type=1&stats='' @ stats @ ''&month='' @ str_int month
                @ ''&players='' @ join '','' (map str_int players) @ ''&pageitems=2000000000'')"
    by (simp only: job_url_def seg sum.case leaders_url_shape)
  have roundtrip: "players \<noteq> [] \<longrightarrow>
      split_on CHR '','' (join '','' (map str_int players)) = map str_int players"
    using split_on_join [of "map str_int players" "CHR '',''"] str_int_no_comma by auto
  have codes: "map (\<lambda>sp. str_int (month_code sp)) [All, VsLeft, VsRight] = [''0'', ''13'', ''14'']"
    by (simp add: str_int_def str_nat.simps digit_char_def)
  show ?thesis
    by (intro conjI params url roundtrip codes tasks_encode_split)
qed

theorem descriptor_job_fields_witness:
  "(\<exists>ps. job_params SEGMENTS ''rp_nz'' ''pit'' 13 = Inr ps
      \<and> map_of ps ''stats'' = Some ''pit''
      \<and> map_of ps ''month'' = Some ''13''
      \<and> map_of ps ''players''
           = Some ''17732,19281,29564,33821,15094,24094,26440,13580,26344,26285,20629,20379''
      \<and> map_of ps ''type'' = Some ''8'')
   \<and> job_url SEGMENTS ''rp_nz'' ''pit'' 13
       = Inr ''https://www.fangraphs.com/leaders/major-league?ind=0&lg=all&pos=all&qual=0&season=2025&season1=2025&type=1&stats=pit&month=13&players=17732,19281,29564,33821,15094,24094,26440,13580,26344,26285,20629,20379&pageitems=2000000000''"
proof -
  have h: "map_of SEGMENTS ''rp_nz''
      = Some [17732, 19281, 29564, 33821, 15094, 24094, 26440, 13580, 26344, 26285, 20629, 20379]"
    by (simp add: SEGMENTS_def)
  have digits: "str_int 13 = ''13''"
    "join '','' (map str_int
        [17732, 19281, 29564, 33821, 15094, 24094, 26440, 13580, 26344, 26285, 20629, 20379])
      = ''17732,19281,29564,33821,15094,24094,26440,13580,26344,26285,20629,20379''"
    by (simp_all add: str_int_def str_nat.simps digit_char_def)
  from descriptor_job_fields [OF h, of "''pit''" 13]
  obtain ps where ps: "job_params SEGMENTS ''rp_nz'' ''pit'' 13 = Inr ps"
    "map_of ps ''stats'' = Some ''pit''"
    "map_of ps ''month'' = Some (str_int 13)"
    "map_of ps ''players'' = Some (join '','' (map str_int
        [17732, 19281, 29564, 33821, 15094, 24094, 26440, 13580, 26344, 26285, 20629, 20379]))"
    "\<forall>key. key \<notin> {''stats'', ''month'', ''players''} \<longrightarrow>
       map_of ps key = map_of fixed_params key"
    and url: "job_url SEGMENTS ''rp_nz'' ''pit'' 13
      = Inr (url_head @ ''&type=1&stats='' @ ''pit'' @ ''&month='' @ str_int 13 @ ''&players=''
          @ join '','' (map str_int
              [17732, 19281, 29564, 33821, 15094, 24094, 26440, 13580, 26344, 26285, 20629, 20379])
          @ ''&pageitems=2000000000'')"
    by (elim conjE exE)
  have "''type'' \<notin> {''stats'', ''month'', ''players''}"
    by simp
  with ps(5) have "map_of ps ''type'' = map_of fixed_params ''type''"
    by (elim allE impE)
  then have type: "map_of ps ''type'' = Some ''8''"
    by (simp add: fixed_params_def)
  have first: "\<exists>ps. job_params SEGMENTS ''rp_nz'' ''pit'' 13 = Inr ps
      \<and> map_of ps ''stats'' = Some ''pit''
      \<and> map_of ps ''month'' = Some ''13''
      \<and> map_of ps ''players''
           = Some ''17732,19281,29564,33821,15094,24094,26440,13580,26344,26285,20629,20379''
      \<and> map_of ps ''type'' = Some ''8''"
    using ps(1-4) type by (intro exI [of _ ps]) (simp only: digits simp_thms)
  have second: "job_url SEGMENTS ''rp_nz'' ''pit'' 13
       = Inr ''https://www.fangraphs.com/leaders/major-league?ind=0&lg=all&pos=all&qual=0&season=2025&season1=2025&type=1&stats=pit&month=13&players=17732,19281,29564,33821,15094,24094,26440,13580,26344,26285,20629,20379&pageitems=2000000000''"
    unfolding url digits by (simp add: url_head_def)
  from first second show ?thesis by (rule conjI)
qed

text \<open>
  C9. For every segment key present in the registry, whatever its player list (the empty
  list too), and every stat category and month code, building the descriptor raises
  nothing, in either mode; and every job of the job list names a segment of \<^verbatim>\<open>SEGMENTS\<close>.
\<close>

theorem descriptor_never_raises:
  assumes "map_of segments seg_key = Some players"
  shows "(\<exists>params. job_params segments seg_key stats month = Inr params)
     \<and> (\<exists>url. job_url segments seg_key stats month = Inr url)
     \<and> list_all (\<lambda>(out_name, seg_key, stats, month). map_of SEGMENTS seg_key \<noteq> None) tasks"
  using assms tasks_segments by (simp add: job_params_def job_url_def segment_def)

text \<open>A segment with no player: the player field is the empty string.\<close>

theorem descriptor_never_raises_witness:
  "(\<exists>params. job_params [(''bench'', [])] ''bench'' ''bat'' 0 = Inr params)
   \<and> (\<exists>url. job_url [(''bench'', [])] ''bench'' ''bat'' 0 = Inr url)"
proof -
  have h: "map_of [(''bench'', [])] ''bench'' = Some ([] :: int list)"
    by simp
  from descriptor_never_raises [OF h] show ?thesis by blast
qed

section \<open>Properties of the HTML-mode fetcher and normalizer\<close>

lemma zip_star_Nil: "zip_star [] = []"
  by (simp add: zip_star.simps)

lemma zip_star_row_length: "row \<in> set (zip_star arrays) \<Longrightarrow> length row = length arrays"
proof (induction arrays arbitrary: row rule: zip_star.induct)
  case (1 arrays)
  show ?case
  proof (cases "arrays = [] \<or> [] \<in> set arrays")
    case True
    with "1.prems" show ?thesis
      by (simp add: zip_star.simps)
  next
    case False
    with "1.prems" have "row = map hd arrays \<or> row \<in> set (zip_star (map tl arrays))"
      by (subst (asm) zip_star.simps) simp
    then show ?thesis
    proof
      assume "row = map hd arrays"
      then show ?thesis by simp
    next
      assume "row \<in> set (zip_star (map tl arrays))"
      from "1.IH" [OF False this] show ?thesis by simp
    qed
  qed
qed

lemma zip_star_length:
  "arrays \<noteq> [] \<Longrightarrow> \<forall>a \<in> set arrays. length a = n \<Longrightarrow> length (zip_star arrays) = n"
proof (induction n arbitrary: arrays)
  case 0
  then have "[] \<in> set arrays"
    by (cases arrays) auto
  then show ?case
    by (simp add: zip_star.simps)
next
  case (Suc n)
  from Suc.prems have no_empty: "\<not> (arrays = [] \<or> [] \<in> set arrays)"
    by auto
  from Suc.prems have "map tl arrays \<noteq> []" "\<forall>a \<in> set (map tl arrays). length a = n"
    by auto
  from Suc.IH [OF this] no_empty show ?case
    by (subst zip_star.simps) simp
qed

lemma dom_dict_of_zip: "length row = length ks \<Longrightarrow> dom (dict_of (zip ks row)) = set ks"
proof -
  assume len: "length row = length ks"
  have "dom (dict_of (zip ks row)) = fst ` set (zip ks row)"
    by (simp add: dict_of_def dom_map_of_conv_image_fst)
  also have "\<dots> = set (map fst (zip ks row))"
    by simp
  also from len have "\<dots> = set ks"
    by (simp only: map_fst_zip)
  finally show ?thesis .
qed

lemma to_dict_records_dom:
  "r \<in> set (to_dict_records df) \<Longrightarrow> dom r = fst ` set (series df)"
proof -
  assume "r \<in> set (to_dict_records df)"
  then obtain row where row: "row \<in> set (zip_star (map snd (series df)))"
    and r: "r = dict_of (zip (map fst (series df)) row)"
    by (auto simp: to_dict_records_def itertuples_def)
  from zip_star_row_length [OF row] have "length row = length (map fst (series df))"
    by simp
  from dom_dict_of_zip [OF this] r show ?thesis
    by simp
qed

lemma to_dict_records_length:
  "wellformed df \<Longrightarrow>
   length (to_dict_records df) = (if series df = [] then 0 else nrows df)"
proof (cases "series df = []")
  case True
  then show ?thesis
    by (simp add: to_dict_records_def itertuples_def zip_star_Nil)
next
  case False
  assume "wellformed df"
  then have "\<forall>a \<in> set (map snd (series df)). length a = nrows df"
    by (auto simp: wellformed_def list_all_iff)
  moreover from False have "map snd (series df) \<noteq> []"
    by simp
  ultimately have "length (zip_star (map snd (series df))) = nrows df"
    by (rule zip_star_length [rotated])
  with False show ?thesis
    by (simp add: to_dict_records_def itertuples_def)
qed

lemma wellformed_clean: "wellformed df \<Longrightarrow> wellformed (rename_columns str (dropna_all_columns df))"
  by (auto simp: wellformed_def rename_columns_def dropna_all_columns_def list_all_iff)

lemma series_clean:
  "series (rename_columns str (dropna_all_columns df))
     = map (\<lambda>(c, vs). (strip (str c), vs)) (filter has_value (series df))"
  by (simp add: rename_columns_def dropna_all_columns_def)

lemma nrows_clean: "nrows (rename_columns str (dropna_all_columns df)) = nrows df"
  by (simp add: rename_columns_def dropna_all_columns_def)

lemma html_records_cases:
  "html_records parse str txt =
     (case parse txt of
        Inl e \<Rightarrow> Inl e
      | Inr [] \<Rightarrow> Inl (ValueError ''No tables found'')
      | Inr (df # rest) \<Rightarrow> Inr (table_records str df))"
  by (simp add: html_records_def read_html_def split: sum.splits list.splits)

lemma scrape_table_events:
  "snd (scrape_table parse str net url evs) = evs @ [Get (html_request url)]"
  by (simp add: scrape_table_def requests_get_def split: outcome.splits sum.splits)

text \<open>
  C5, as the code has it. When no table is found in the page of a response that passes
  \<^verbatim>\<open>raise_for_status\<close>, \<^verbatim>\<open>read_html\<close> raises and \<^verbatim>\<open>scrape_table\<close> lets the \<^verbatim>\<open>ValueError\<close>
  through, failing loudly as its comment says: the guard that returns the empty list is
  never reached. When the page holds tables, the records are those of the first one.
\<close>

theorem scrape_table_no_table:
  assumes "net (gets evs) (html_request url) = Returns r"
    and "\<not> (400 \<le> status_code r \<and> status_code r < 600)"
  shows "(parse (resp_text r) = Inr [] \<longrightarrow>
            fst (scrape_table parse str net url evs) = Inl (ValueError ''No tables found''))
     \<and> (\<forall>df rest. parse (resp_text r) = Inr (df # rest) \<longrightarrow>
            fst (scrape_table parse str net url evs) = Inr (table_records str df))"
  using assms
  by (auto simp: scrape_table_def requests_get_def raise_for_status_def html_records_cases)

theorem scrape_table_no_table_witness:
  "fst (scrape_table (\<lambda>txt. Inr ([] :: (string, string) dataframe list)) (\<lambda>c. c)
      (\<lambda>k req. Returns (Response 200 ''<html><body><p>No leaders.</p></body></html>'' None))
      ''https://www.fangraphs.com/leaders/major-league'' [])
   = Inl (ValueError ''No tables found'')"
proof -
  let ?net = "\<lambda>(k::nat) (req::request).
    Returns (Response 200 ''<html><body><p>No leaders.</p></body></html>'' None)"
  let ?r = "Response 200 ''<html><body><p>No leaders.</p></body></html>'' None"
  have a: "?net (gets []) (html_request ''https://www.fangraphs.com/leaders/major-league'') = Returns ?r"
    by simp
  have b: "\<not> (400 \<le> status_code ?r \<and> status_code ?r < 600)"
    by simp
  from scrape_table_no_table [of ?net "[]" _ ?r "\<lambda>txt. Inr ([] :: (string, string) dataframe list)" "\<lambda>c. c", OF a b]
  show ?thesis by simp
qed

text \<open>
  C5 as stated fails: for a page without a table the result is not the empty sequence.
\<close>

theorem scrape_table_no_table_counterexample:
  "fst (scrape_table (\<lambda>txt. Inr ([] :: (string, string) dataframe list)) (\<lambda>c. c)
      (\<lambda>k req. Returns (Response 200 ''<html><body><p>No leaders.</p></body></html>'' None))
      ''https://www.fangraphs.com/leaders/major-league'' [])
   \<noteq> Inr []"
  by (simp add: scrape_table_def requests_get_def raise_for_status_def html_records_cases)

text \<open>
  C6, as the code has it. \<^verbatim>\<open>scrape_table\<close> issues exactly one request and sleeps never;
  an exception of \<^verbatim>\<open>requests.get\<close> and a status from 400 to 599 are raised to the caller
  at once.
\<close>

theorem scrape_table_single_request:
  "snd (scrape_table parse str net url evs) = evs @ [Get (html_request url)]
   \<and> (\<forall>e. net (gets evs) (html_request url) = Raises e \<longrightarrow>
         fst (scrape_table parse str net url evs) = Inl e)
   \<and> (\<forall>r. net (gets evs) (html_request url) = Returns r
           \<and> 400 \<le> status_code r \<and> status_code r < 600 \<longrightarrow>
         fst (scrape_table parse str net url evs) = Inl (HTTPError (status_code r)))"
  by (simp add: scrape_table_events)
     (simp add: scrape_table_def requests_get_def raise_for_status_def)

theorem scrape_table_single_request_witness:
  "scrape_table (\<lambda>txt. Inr ([] :: (string, string) dataframe list)) (\<lambda>c. c)
      (\<lambda>k req. Returns (Response 503 ''Service Unavailable'' None)) ''https://example.org/'' []
   = (Inl (HTTPError 503), [Get (html_request ''https://example.org/'')])"
proof -
  let ?net = "\<lambda>(k::nat) (req::request). Returns (Response 503 ''Service Unavailable'' None)"
  let ?run = "scrape_table (\<lambda>txt. Inr ([] :: (string, string) dataframe list)) (\<lambda>c. c)
      ?net ''https://example.org/'' []"
  from scrape_table_single_request
    [of "\<lambda>txt. Inr ([] :: (string, string) dataframe list)" "\<lambda>c. c" ?net "''https://example.org/''" "[]"]
  have "snd ?run = [] @ [Get (html_request ''https://example.org/'')]"
    and "fst ?run = Inl (HTTPError 503)"
    by simp_all
  then show ?thesis
    by (simp add: prod_eq_iff)
qed

text \<open>
  C6 as stated, for any status outside 200 to 299, fails: \<^verbatim>\<open>raise_for_status\<close> lets a
  status such as 300 pass, and the body is parsed like that of a success.
\<close>

theorem scrape_table_non_2xx_counterexample:
  "\<not> isl (fst (scrape_table
      (\<lambda>txt. Inr [DataFrame 1 [(''Name'', [Some ''A. Batter''])]]) (\<lambda>c. c)
      (\<lambda>k req. Returns (Response 300 ''<table><tr><th>Name</th></tr><tr><td>A. Batter</td></tr></table>'' None))
      ''https://example.org/'' []))"
  by (simp add: scrape_table_def requests_get_def raise_for_status_def html_records_cases)

text \<open>
  C7, as the code has it. For every table, each output record has as its fields exactly
  the headers, coerced to strings and stripped, of the columns that have a cell that is not
  empty, so a column that is empty in every row gives no field; and the number of records
  is the number of data rows when some column remains, and zero when none does.
\<close>

theorem table_records_fields_and_rows:
  assumes "wellformed df"
  shows "(\<forall>r \<in> set (table_records str df).
            dom r = (\<lambda>col. strip (str (fst col))) ` set (filter has_value (series df)))
     \<and> length (table_records str df)
         = (if filter has_value (series df) = [] then 0 else nrows df)"
proof -
  let ?clean = "rename_columns str (dropna_all_columns df)"
  have fields: "dom r = (\<lambda>col. strip (str (fst col))) ` set (filter has_value (series df))"
    if "r \<in> set (table_records str df)" for r
  proof -
    from that have "dom r = fst ` set (series ?clean)"
      by (simp only: table_records_def to_dict_records_dom)
    also have "\<dots> = (\<lambda>col. strip (str (fst col))) ` set (filter has_value (series df))"
      by (simp add: series_clean image_image case_prod_beta)
    finally show ?thesis .
  qed
  have "length (table_records str df) = (if series ?clean = [] then 0 else nrows ?clean)"
    unfolding table_records_def
    by (rule to_dict_records_length) (rule wellformed_clean [OF assms])
  then have rows: "length (table_records str df)
         = (if filter has_value (series df) = [] then 0 else nrows df)"
    by (simp add: series_clean nrows_clean)
  from fields rows show ?thesis by blast
qed

text \<open>
  A table with three data rows and a column \<^verbatim>\<open>Unnamed: 5\<close> that is empty in every row:
  three records, with the two other headers, stripped, as their fields.
\<close>

theorem table_records_fields_and_rows_witness:
  "length (table_records (\<lambda>c. c)
      (DataFrame 3 [(''Name '', [Some ''A. Batter'', Some ''B. Catcher'', Some ''C. Fielder'']),
                    ('' HR'', [Some ''12'', None, Some ''7'']),
                    (''Unnamed: 5'', [None, None, None])])) = 3
   \<and> list_all (\<lambda>r. dom r = {''Name'', ''HR''} \<and> ''Unnamed: 5'' \<notin> dom r)
       (table_records (\<lambda>c. c)
         (DataFrame 3 [(''Name '', [Some ''A. Batter'', Some ''B. Catcher'', Some ''C. Fielder'']),
                       ('' HR'', [Some ''12'', None, Some ''7'']),
                       (''Unnamed: 5'', [None, None, None])]))"
proof -
  let ?df = "DataFrame 3 [(''Name '', [Some ''A. Batter'', Some ''B. Catcher'', Some ''C. Fielder'']),
                    ('' HR'', [Some ''12'', None, Some ''7'']),
                    (''Unnamed: 5'', [None :: string option, None, None])]"
  have wf: "wellformed ?df"
    by (simp add: wellformed_def)
  have kept: "filter has_value (series ?df)
      = [(''Name '', [Some ''A. Batter'', Some ''B. Catcher'', Some ''C. Fielder'']),
         ('' HR'', [Some ''12'', None, Some ''7''])]"
    by (simp add: has_value_def)
  have names: "strip ''Name '' = ''Name''" "strip '' HR'' = ''HR''"
    by (simp_all add: strip_def is_space_def)
  from table_records_fields_and_rows [OF wf, of "\<lambda>c. c"]
  have "\<forall>r \<in> set (table_records (\<lambda>c. c) ?df). dom r = {''Name'', ''HR''}"
    and "length (table_records (\<lambda>c. c) ?df) = 3"
    unfolding kept by (simp_all add: names)
  then show ?thesis
    by (simp add: list_all_iff)
qed

text \<open>
  C7 as stated, for the number of records, fails: of a table with two data rows whose
  columns are all empty in every row no column remains, and with no column there is no
  record.
\<close>

theorem table_records_rows_counterexample:
  "length (table_records (\<lambda>c. c)
      (DataFrame 2 [(''Notes'', [None :: string option, None]), (''Status'', [None, None])]))
     \<noteq> nrows (DataFrame 2 [(''Notes'', [None :: string option, None]), (''Status'', [None, None])])"
  by (simp add: table_records_def to_dict_records_def itertuples_def rename_columns_def
      dropna_all_columns_def has_value_def zip_star_Nil)

end
